theory Spec2Isabelle
  imports Complex_Main "HOL-Library.Multiset"
begin

section \<open>Conventions of the embedding\<close>

text \<open>
  The program is Python. Its numbers are Python ints and floats; the embedding uses
  \<open>int\<close> for the former and exact rationals (\<open>rat\<close>) for the latter, so every
  product and quotient below is the exact one and the rounding of IEEE doubles is not
  part of the model. The closed evaluations of this theory use inputs on which the
  float computation is exact or far from a truncation boundary.
  Exceptions are values: a function that can raise returns \<open>py_error + 'a\<close>.
\<close>

datatype py_error = IndexError | ValueError | ParserError

definition py_int :: "rat \<Rightarrow> int" where
  \<comment> \<open>Python's \<open>int(x)\<close> on a float: truncation toward zero.\<close>
  "py_int x = (if 0 \<le> x then \<lfloor>x\<rfloor> else \<lceil>x\<rceil>)"

definition py_round :: "rat \<Rightarrow> int" where
  \<comment> \<open>Python's \<open>round(x)\<close>: to the nearest integer, a tie to the even one.\<close>
  "py_round x =
     (let f = \<lfloor>x\<rfloor>; d = x - of_int f
      in if d < 1 / 2 then f
         else if 1 / 2 < d then f + 1
         else if even f then f else f + 1)"

definition isspace :: "char \<Rightarrow> bool" where
  \<comment> \<open>\<open>str.isspace\<close> on the ASCII range: tab, LF, VT, FF, CR, FS, GS, RS, US, space.\<close>
  "isspace c = (of_char c \<in> {9, 10, 11, 12, 13, 28, 29, 30, 31, 32 :: nat})"



section \<open>Profile and targets (p3.py, \<open>save_profile\<close>)\<close>








section \<open>Meal plan generator (p3.py, \<open>generate_meal_plan\<close>)\<close>

text \<open>
  A row of the food table, with the columns the generator reads. The table is taken to
  have the \<open>Diet\<close> and \<open>Serving Unit\<close> columns (\<open>load_databases\<close> adds
  \<open>Diet\<close> when it is missing), so the defaults of \<open>selected.get\<close> are not used.
\<close>

record food_item =
  Dish_Name :: string
  Calories_per_Serving :: rat
  Protein_per_Serving :: rat
  Diet :: string
  Serving_Unit :: string

record meal =
  Type :: string
  Dish :: string
  Qty :: rat
  Unit :: string
  Cals :: int
  Meal_Diet :: string

record day_plan =
  Meals :: "meal list"
  Total :: int

definition budgets :: "(string \<times> rat) list" where
  \<comment> \<open>Line 248; a dict iterates in insertion order.\<close>
  "budgets = [(''Breakfast'', 1 / 4), (''Lunch'', 7 / 20), (''Dinner'', 3 / 10), (''Snack'', 1 / 10)]"

definition prepare_catalog :: "food_item list \<Rightarrow> string \<Rightarrow> string \<Rightarrow> food_item list" where
  \<comment> \<open>Lines 250-256: the diet filter, then the goal's ranking. pandas does not fix the
      order of rows with equal keys; a stable sort is used here.\<close>
  "prepare_catalog df_food goal diet_pref =
     (let df1 = (if diet_pref = ''Vegetarian'' then filter (\<lambda>r. Diet r = ''Veg'') df_food
                 else df_food)
      in if goal = ''Muscle Gain'' then sort_key (\<lambda>r. - Protein_per_Serving r) df1
         else if goal = ''Weight Loss'' then sort_key Calories_per_Serving df1
         else df1)"

definition in_budget :: "rat \<Rightarrow> food_item \<Rightarrow> bool" where
  "in_budget budget r =
     (budget - 150 \<le> Calories_per_Serving r \<and> Calories_per_Serving r \<le> budget + 150)"

definition candidates_of :: "food_item list \<Rightarrow> rat \<Rightarrow> food_item list" where
  \<comment> \<open>Lines 263-265.\<close>
  "candidates_of df_food budget =
     (let candidates = filter (in_budget budget) df_food
      in if candidates = [] then df_food else candidates)"

definition sample1 :: "'a list \<Rightarrow> nat \<Rightarrow> py_error + 'a" where
  \<comment> \<open>\<open>candidates.sample(1).iloc[0]\<close>: one row, chosen by the random draw \<open>r\<close>;
      sampling from a table without rows raises ValueError.\<close>
  "sample1 rows r = (if rows = [] then Inl ValueError else Inr (rows ! (r mod length rows)))"

definition round1 :: "rat \<Rightarrow> rat" where
  \<comment> \<open>\<open>round(x, 1)\<close>: to one decimal, a tie to the even digit.\<close>
  "round1 x = of_int (py_round (x * 10)) / 10"

definition serving_qty :: "rat \<Rightarrow> rat \<Rightarrow> rat" where
  \<comment> \<open>Line 268: \<open>max(0.5, min(round(budget / c, 1), 3.0))\<close>. The divisor is a numpy
      scalar, so a zero divisor gives \<open>inf\<close>, \<open>-inf\<close> or \<open>nan\<close> and no exception;
      \<open>min\<close> and \<open>max\<close> keep their first argument unless the second compares
      strictly beyond it, which sends \<open>inf\<close> to 3.0 and \<open>-inf\<close> and \<open>nan\<close> to 0.5.\<close>
  "serving_qty budget c =
     (if c \<noteq> 0 then max (1 / 2) (min (round1 (budget / c)) 3)
      else if 0 < budget then 3
      else 1 / 2)"

definition make_meal :: "string \<Rightarrow> rat \<Rightarrow> food_item \<Rightarrow> meal" where
  \<comment> \<open>Lines 268-274.\<close>
  "make_meal meal_type budget selected =
     (let qty = serving_qty budget (Calories_per_Serving selected);
          cals = py_int (Calories_per_Serving selected * qty)
      in \<lparr>Type = meal_type, Dish = Dish_Name selected, Qty = qty,
          Unit = Serving_Unit selected, Cals = cals, Meal_Diet = Diet selected\<rparr>)"

fun meal_loop ::
  "food_item list \<Rightarrow> int \<Rightarrow> (nat \<Rightarrow> nat) \<Rightarrow> nat \<Rightarrow> (string \<times> rat) list \<Rightarrow> meal list \<Rightarrow> int
     \<Rightarrow> py_error + (meal list \<times> int \<times> nat)" where
  \<comment> \<open>Lines 261-275: the loop over the meal slots; \<open>rnd k\<close> is the \<open>k\<close>-th random draw.\<close>
  "meal_loop df_food target_cals rnd k [] day_meals total_day = Inr (day_meals, total_day, k)"
| "meal_loop df_food target_cals rnd k ((meal_type, ratio) # rest) day_meals total_day =
     (let budget = of_int target_cals * ratio
      in case sample1 (candidates_of df_food budget) (rnd k) of
           Inl e \<Rightarrow> Inl e
         | Inr selected \<Rightarrow>
             (let m = make_meal meal_type budget selected
              in meal_loop df_food target_cals rnd (Suc k) rest
                   (day_meals @ [m]) (total_day + Cals m)))"

fun day_loop ::
  "food_item list \<Rightarrow> int \<Rightarrow> (nat \<Rightarrow> nat) \<Rightarrow> nat \<Rightarrow> int list \<Rightarrow> (int \<times> day_plan) list
     \<Rightarrow> py_error + (int \<times> day_plan) list" where
  \<comment> \<open>Lines 258-276: the loop over the days; the plan is keyed by the day number.\<close>
  "day_loop df_food target_cals rnd k [] plan = Inr plan"
| "day_loop df_food target_cals rnd k (day # rest) plan =
     (case meal_loop df_food target_cals rnd k budgets [] 0 of
        Inl e \<Rightarrow> Inl e
      | Inr (day_meals, total_day, k') \<Rightarrow>
          day_loop df_food target_cals rnd k' rest
            (plan @ [(day, \<lparr>Meals = day_meals, Total = total_day\<rparr>)]))"

definition generate_meal_plan ::
  "food_item list \<Rightarrow> int \<Rightarrow> string \<Rightarrow> string \<Rightarrow> int \<Rightarrow> (nat \<Rightarrow> nat)
     \<Rightarrow> py_error + (int \<times> day_plan) list" where
  "generate_meal_plan df_food target_cals goal diet_pref days rnd =
     day_loop (prepare_catalog df_food goal diet_pref) target_cals rnd 0 [1..days] []"


text \<open>
  Two food tables for the closed evaluations: three rows of the default table that
  \<open>initialize_databases\<close> writes (lines 91-100), and a table of one row whose calories
  per serving are odd.
\<close>

definition demo_catalog :: "food_item list" where
  "demo_catalog =
     [\<lparr>Dish_Name = ''Roti'', Calories_per_Serving = 120, Protein_per_Serving = 3,
       Diet = ''Veg'', Serving_Unit = ''1 piece''\<rparr>,
      \<lparr>Dish_Name = ''Chicken Curry'', Calories_per_Serving = 400, Protein_per_Serving = 25,
       Diet = ''Non-Veg'', Serving_Unit = ''1 bowl''\<rparr>,
      \<lparr>Dish_Name = ''Paneer Butter Masala'', Calories_per_Serving = 350, Protein_per_Serving = 12,
       Diet = ''Veg'', Serving_Unit = ''1 bowl''\<rparr>]"


section \<open>Symptom matcher (chatbot.py)\<close>

text \<open>
  \<open>rapidfuzz.process.extractOne\<close> is library code. Its scorer (the default, WRatio,
  with values from 0 to 100) is a parameter here; the scan is the library's: choices that
  are missing are skipped, a choice replaces the best one so far only with a score at
  least the cutoff and strictly above the best score, and the key returned is the row
  label, which is the row number for the table of chatbot.py. The library also stops at
  the first score of 100, which returns the same result for a scorer bounded by 100.
\<close>

fun extractOne_loop ::
  "(string \<Rightarrow> string \<Rightarrow> rat) \<Rightarrow> string \<Rightarrow> rat \<Rightarrow> (nat \<times> string option) list
     \<Rightarrow> (string \<times> rat \<times> nat) option \<Rightarrow> (string \<times> rat \<times> nat) option" where
  "extractOne_loop scorer query score_cutoff [] best = best"
| "extractOne_loop scorer query score_cutoff ((idx, None) # rest) best =
     extractOne_loop scorer query score_cutoff rest best"
| "extractOne_loop scorer query score_cutoff ((idx, Some choice) # rest) best =
     (let score = scorer query choice
      in if score_cutoff \<le> score \<and>
            (case best of None \<Rightarrow> True | Some (_, best_score, _) \<Rightarrow> best_score < score)
         then extractOne_loop scorer query score_cutoff rest (Some (choice, score, idx))
         else extractOne_loop scorer query score_cutoff rest best)"

definition extractOne ::
  "(string \<Rightarrow> string \<Rightarrow> rat) \<Rightarrow> string \<Rightarrow> string option list \<Rightarrow> rat
     \<Rightarrow> (string \<times> rat \<times> nat) option" where
  "extractOne scorer query choices score_cutoff =
     extractOne_loop scorer query score_cutoff (enumerate 0 choices) None"

definition Matcher :: "(string \<Rightarrow> string \<Rightarrow> rat) \<Rightarrow> string option list \<Rightarrow> string \<Rightarrow> nat option" where
  \<comment> \<open>Lines 12-18; the second argument is the module's \<open>df['Symptom']\<close>.\<close>
  "Matcher scorer symptoms inp =
     (case extractOne scorer inp symptoms 70 of
        Some (symptom, confidence, idx) \<Rightarrow> Some idx
      | None \<Rightarrow> None)"

definition isupper :: "char \<Rightarrow> bool" where
  "isupper c = (65 \<le> (of_char c :: nat) \<and> (of_char c :: nat) \<le> 90)"

definition islower :: "char \<Rightarrow> bool" where
  "islower c = (97 \<le> (of_char c :: nat) \<and> (of_char c :: nat) \<le> 122)"

definition to_upper :: "char \<Rightarrow> char" where
  "to_upper c = (if islower c then char_of ((of_char c :: nat) - 32) else c)"

definition to_lower :: "char \<Rightarrow> char" where
  "to_lower c = (if isupper c then char_of ((of_char c :: nat) + 32) else c)"

fun title_acc :: "bool \<Rightarrow> string \<Rightarrow> string" where
  \<comment> \<open>\<open>str.title\<close> on ASCII text: a letter after a letter is lowered, any other letter
      is raised; the flag says whether the previous character was a letter.\<close>
  "title_acc prev_cased [] = []"
| "title_acc prev_cased (c # cs) =
     (if islower c \<or> isupper c
      then (if prev_cased then to_lower c else to_upper c) # title_acc True cs
      else c # title_acc False cs)"

definition py_title :: "string \<Rightarrow> string" where
  "py_title s = title_acc False s"

definition py_strip :: "string \<Rightarrow> string" where
  \<comment> \<open>\<open>str.strip()\<close>: without the leading and the trailing whitespace.\<close>
  "py_strip s = rev (dropWhile isspace (rev (dropWhile isspace s)))"

definition load_symptoms :: "string option list \<Rightarrow> string option list" where
  \<comment> \<open>Line 7: the symptom column is title-cased when the module loads.\<close>
  "load_symptoms column = map (map_option py_title) column"

datatype chatbot_reply = Goodbye | Advice nat | NoCloseMatch

definition chatbot_turn :: "(string \<Rightarrow> string \<Rightarrow> rat) \<Rightarrow> string option list \<Rightarrow> string \<Rightarrow> chatbot_reply" where
  \<comment> \<open>Lines 23-47: one round of the dialogue, on the line \<open>inp\<close> read from the user.\<close>
  "chatbot_turn scorer symptoms inp =
     (let clean_input = py_title (py_strip inp)
      in if clean_input = ''Exit'' then Goodbye
         else (case Matcher scorer symptoms clean_input of
                 Some idx \<Rightarrow> Advice idx
               | None \<Rightarrow> NoCloseMatch))"

text \<open>
  For the closed evaluations: a scorer with values from 0 to 100 (the share of the longer
  string that the common prefix covers; 0 when a string is empty) standing in for the
  library's, and a symptom column with a missing entry.
\<close>

fun common_prefix :: "string \<Rightarrow> string \<Rightarrow> nat" where
  "common_prefix (a # as) (b # bs) = (if a = b then Suc (common_prefix as bs) else 0)"
| "common_prefix _ _ = 0"

definition prefix_scorer :: "string \<Rightarrow> string \<Rightarrow> rat" where
  "prefix_scorer query choice =
     (if query = [] \<or> choice = [] then 0
      else 100 * of_nat (common_prefix query choice) / of_nat (max (length query) (length choice)))"

definition demo_symptoms :: "string option list" where
  "demo_symptoms = load_symptoms [Some ''headache'', None, Some ''fever'', Some ''sore throat'']"

section \<open>Streak (p3.py, \<open>calculate_streak\<close>)\<close>

text \<open>
  The food log as \<open>calculate_streak\<close> sees it: the \<open>Date\<close> column, and the
  \<open>DateObj\<close> column when the table has one. A calendar day is its day number.
  \<open>pd.to_datetime(column, errors='coerce')\<close> followed by \<open>.dt.date\<close> is the
  parameter \<open>to_datetime\<close>: it maps the column to one entry per row, \<open>None\<close> where
  the text is not a date. \<open>today\<close> is \<open>datetime.now().date()\<close>.
\<close>

record log_table =
  Date :: "string list"
  DateObj :: "int option list option"

function streak_loop :: "int list \<Rightarrow> int \<Rightarrow> nat \<Rightarrow> nat" where
  \<comment> \<open>Lines 223-226.\<close>
  "streak_loop valid_dates check_date streak =
     (if check_date \<in> set valid_dates
      then streak_loop valid_dates (check_date - 1) (streak + 1)
      else streak)"
  by pat_completeness auto
termination
proof (relation "measure (\<lambda>(valid_dates, check_date, streak).
                   card {d \<in> set valid_dates. d \<le> check_date})")
  show "wf (measure (\<lambda>(valid_dates, check_date, streak).
                   card {d \<in> set valid_dates. d \<le> check_date}))"
    by simp
next
  fix valid_dates :: "int list" and check_date :: int and streak :: nat
  assume mem: "check_date \<in> set valid_dates"
  have "{d \<in> set valid_dates. d \<le> check_date - 1} \<subset> {d \<in> set valid_dates. d \<le> check_date}"
    using mem by auto
  then have "card {d \<in> set valid_dates. d \<le> check_date - 1}
               < card {d \<in> set valid_dates. d \<le> check_date}"
    by (intro psubset_card_mono) simp_all
  then show "((valid_dates, check_date - 1, streak + 1), (valid_dates, check_date, streak))
               \<in> measure (\<lambda>(valid_dates, check_date, streak).
                   card {d \<in> set valid_dates. d \<le> check_date})"
    by simp
qed

definition valid_dates_of :: "int option list \<Rightarrow> int list" where
  \<comment> \<open>Lines 208 and 213: \<open>dropna\<close>, \<open>unique\<close>, then the sort in place.\<close>
  "valid_dates_of objs =
     sort (remdups (concat (map (\<lambda>d. case d of None \<Rightarrow> [] | Some x \<Rightarrow> [x]) objs)))"

definition calculate_streak ::
  "(string list \<Rightarrow> int option list) \<Rightarrow> int \<Rightarrow> log_table option \<Rightarrow> nat \<times> log_table option" where
  \<comment> \<open>Lines 202-226. The result is the streak and the caller's table after the call.\<close>
  "calculate_streak to_datetime today df_food =
     (case df_food of
        None \<Rightarrow> (0, None)
      | Some df \<Rightarrow>
          if Date df = [] then (0, Some df)
          else
            (let objs = to_datetime (Date df);
                 df' = df\<lparr>DateObj := Some objs\<rparr>;
                 valid_dates = valid_dates_of objs
             in if length valid_dates = 0 then (0, Some df')
                else if today \<notin> set valid_dates
                  then (if today - 1 \<notin> set valid_dates then (0, Some df')
                        else (streak_loop valid_dates (today - 1) 0, Some df'))
                  else (streak_loop valid_dates today 0, Some df')))"

text \<open>
  For the closed evaluations: a date parser that knows four dates, as day numbers since
  1 January 1970, and a food log with a row that is not a date.
\<close>

definition demo_to_datetime :: "string list \<Rightarrow> int option list" where
  "demo_to_datetime column =
     map (map_of [(''2024-02-28'', 19781), (''2024-03-01'', 19783), (''2024-03-02'', 19784),
                  (''2024-03-03'', 19785)]) column"

definition demo_log :: log_table where
  "demo_log = \<lparr>Date = [''2024-03-01'', ''2024-03-03'', ''n/a'', ''2024-03-02'', ''2024-03-03'',
                        ''2024-02-28''],
               DateObj = None\<rparr>"

section \<open>Loader (p3.py, \<open>load_data_safe\<close>)\<close>

text \<open>
  The file system maps a path to the text of the file there. \<open>pd.read_csv\<close> raises
  \<open>EmptyDataError\<close> on a file of length zero; what it does with any other text is the
  parameter \<open>parse\<close>: the table's rows (none for a file with a header line only),
  \<open>EmptyDataError\<close> when it finds no columns, or another exception.
\<close>

datatype 'row read_result = EmptyDataError | Raises py_error | DataFrame "'row list"

definition read_csv :: "(string \<Rightarrow> 'row read_result) \<Rightarrow> string \<Rightarrow> 'row read_result" where
  "read_csv parse text = (if text = [] then EmptyDataError else parse text)"

definition load_data_safe ::
  "(string \<Rightarrow> 'row read_result) \<Rightarrow> (string \<rightharpoonup> string) \<Rightarrow> string \<Rightarrow> py_error + 'row list option" where
  \<comment> \<open>Lines 117-126; only \<open>EmptyDataError\<close> is caught.\<close>
  "load_data_safe parse files filepath =
     (case files filepath of
        Some text \<Rightarrow>
          (case read_csv parse text of
             DataFrame rows \<Rightarrow> if rows = [] then Inr None else Inr (Some rows)
           | EmptyDataError \<Rightarrow> Inr None
           | Raises e \<Rightarrow> Inl e)
      | None \<Rightarrow> Inr None)"

text \<open>
  For the closed evaluations: a reader that takes the first line as the header and every
  further line as a row, and a file system with three files.
\<close>

fun lines_acc :: "string \<Rightarrow> string \<Rightarrow> string list" where
  "lines_acc [] cur = (if cur = [] then [] else [cur])"
| "lines_acc (c # cs) cur =
     (if c = CHR 0x0A then (if cur = [] then lines_acc cs [] else cur # lines_acc cs [])
      else lines_acc cs (cur @ [c]))"

definition csv_rows :: "string \<Rightarrow> string read_result" where
  "csv_rows text = (case lines_acc text [] of [] \<Rightarrow> EmptyDataError | header # rows \<Rightarrow> DataFrame rows)"

definition demo_files :: "string \<rightharpoonup> string" where
  "demo_files = map_of
     [(''weight_log.csv'', ''Date,Weight'' @ [CHR 0x0A] @ ''2024-03-01,70'' @ [CHR 0x0A]),
      (''food_log.csv'', ''Date,Time,Dish'' @ [CHR 0x0A]),
      (''water_log_detailed.csv'', [])]"

section \<open>Properties of the target calculator\<close>







section \<open>Properties of the meal plan generator\<close>

lemma candidates_of_subset: "set (candidates_of df budget) \<subseteq> set df"
  by (auto simp: candidates_of_def Let_def)



lemma sample1_mem: "sample1 rows r = Inr x \<Longrightarrow> x \<in> set rows"
  by (auto simp: sample1_def split: if_splits)


lemma meal_loop_inv:
  "meal_loop df target rnd k slots acc tot = Inr (ms, t, k') \<Longrightarrow>
   \<exists>new. ms = acc @ new \<and> t = tot + sum_list (map Cals new) \<and>
     list_all2 (\<lambda>m sr. \<exists>item\<in>set (candidates_of df (of_int target * snd sr)).
                  m = make_meal (fst sr) (of_int target * snd sr) item) new slots"
proof (induction slots arbitrary: k acc tot)
  case Nil
  then show ?case by simp
next
  case (Cons sr rest)
  obtain slot ratio where sr: "sr = (slot, ratio)"
    by (cases sr)
  from Cons.prems obtain selected where
    sel: "sample1 (candidates_of df (of_int target * ratio)) (rnd k) = Inr selected" and
    run: "meal_loop df target rnd (Suc k) rest
            (acc @ [make_meal slot (of_int target * ratio) selected])
            (tot + Cals (make_meal slot (of_int target * ratio) selected)) = Inr (ms, t, k')"
    by (auto simp: sr Let_def split: sum.splits)
  from Cons.IH [OF run] obtain new where
    new: "ms = (acc @ [make_meal slot (of_int target * ratio) selected]) @ new"
         "t = tot + Cals (make_meal slot (of_int target * ratio) selected) + sum_list (map Cals new)"
         "list_all2 (\<lambda>m sr. \<exists>item\<in>set (candidates_of df (of_int target * snd sr)).
                  m = make_meal (fst sr) (of_int target * snd sr) item) new rest"
    by blast
  have "selected \<in> set (candidates_of df (of_int target * ratio))"
    using sel by (rule sample1_mem)
  with new show ?case
    by (intro exI [of _ "make_meal slot (of_int target * ratio) selected # new"]) (auto simp: sr)
qed


lemma day_loop_inv:
  "day_loop df target rnd k days plan = Inr plan' \<Longrightarrow>
   \<exists>new. plan' = plan @ new \<and> map fst new = days \<and>
     (\<forall>e\<in>set new.
        Total (snd e) = sum_list (map Cals (Meals (snd e))) \<and>
        list_all2 (\<lambda>m sr. \<exists>item\<in>set (candidates_of df (of_int target * snd sr)).
                     m = make_meal (fst sr) (of_int target * snd sr) item) (Meals (snd e)) budgets)"
proof (induction days arbitrary: k plan)
  case Nil
  then show ?case by simp
next
  case (Cons day rest)
  from Cons.prems obtain ms t k' where
    meals: "meal_loop df target rnd k budgets [] 0 = Inr (ms, t, k')" and
    run: "day_loop df target rnd k' rest (plan @ [(day, \<lparr>Meals = ms, Total = t\<rparr>)]) = Inr plan'"
    by (auto split: sum.splits)
  from meal_loop_inv [OF meals] have first:
    "t = sum_list (map Cals ms)"
    "list_all2 (\<lambda>m sr. \<exists>item\<in>set (candidates_of df (of_int target * snd sr)).
                  m = make_meal (fst sr) (of_int target * snd sr) item) ms budgets"
    by auto
  from Cons.IH [OF run] obtain new where
    "plan' = (plan @ [(day, \<lparr>Meals = ms, Total = t\<rparr>)]) @ new" "map fst new = rest"
    "\<forall>e\<in>set new.
        Total (snd e) = sum_list (map Cals (Meals (snd e))) \<and>
        list_all2 (\<lambda>m sr. \<exists>item\<in>set (candidates_of df (of_int target * snd sr)).
                     m = make_meal (fst sr) (of_int target * snd sr) item) (Meals (snd e)) budgets"
    by blast
  with first show ?case
    by (intro exI [of _ "(day, \<lparr>Meals = ms, Total = t\<rparr>) # new"]) auto
qed


lemma generate_meal_plan_days:
  "generate_meal_plan df_food target goal diet_pref days rnd = Inr plan \<Longrightarrow>
   map fst plan = [1..days] \<and>
   (\<forall>e\<in>set plan.
      Total (snd e) = sum_list (map Cals (Meals (snd e))) \<and>
      list_all2 (\<lambda>m sr. \<exists>item\<in>set (candidates_of (prepare_catalog df_food goal diet_pref)
                                        (of_int target * snd sr)).
                   m = make_meal (fst sr) (of_int target * snd sr) item) (Meals (snd e)) budgets)"
  using day_loop_inv [of "prepare_catalog df_food goal diet_pref" target rnd 0 "[1..days]" "[]" plan]
  by (auto simp: generate_meal_plan_def)

lemma prepare_catalog_set:
  "set (prepare_catalog df_food goal diet_pref) =
     (if diet_pref = ''Vegetarian'' then {r \<in> set df_food. Diet r = ''Veg''} else set df_food)"
  by (simp add: prepare_catalog_def Let_def)

lemma prepare_catalog_mset:
  "mset (prepare_catalog df_food goal diet_pref) =
     (if diet_pref = ''Vegetarian'' then filter_mset (\<lambda>r. Diet r = ''Veg'') (mset df_food) else mset df_food)"
  by (simp add: prepare_catalog_def Let_def)


lemma list_all2_set1: "list_all2 P xs ys \<Longrightarrow> x \<in> set xs \<Longrightarrow> \<exists>y\<in>set ys. P x y"
  by (induction rule: list_all2_induct) auto



lemma make_meal_fields:
  "Type (make_meal slot budget item) = slot"
  "Dish (make_meal slot budget item) = Dish_Name item"
  "Unit (make_meal slot budget item) = Serving_Unit item"
  "Meal_Diet (make_meal slot budget item) = Diet item"
  "Qty (make_meal slot budget item) = serving_qty budget (Calories_per_Serving item)"
  "Cals (make_meal slot budget item) =
     py_int (Calories_per_Serving item * serving_qty budget (Calories_per_Serving item))"
  by (simp_all add: make_meal_def Let_def)










text \<open>
  Claim C5. With the preference Vegetarian every meal of the plan carries the diet class Veg
  and the dish name of a Veg row of the caller's table; with the preference Non-Vegetarian
  the catalog the meals are drawn from has exactly the rows of the caller's table.
\<close>

theorem generate_meal_plan_diet:
  "(generate_meal_plan df_food target_cals goal ''Vegetarian'' days rnd = Inr plan \<longrightarrow>
      (\<forall>(day, dp)\<in>set plan. \<forall>m\<in>set (Meals dp).
         Meal_Diet m = ''Veg'' \<and>
         (\<exists>item\<in>set df_food. Diet item = ''Veg'' \<and> Dish m = Dish_Name item))) \<and>
   mset (prepare_catalog df_food goal ''Non-Vegetarian'') = mset df_food"
proof (intro conjI impI)
  assume plan: "generate_meal_plan df_food target_cals goal ''Vegetarian'' days rnd = Inr plan"
  let ?df = "prepare_catalog df_food goal ''Vegetarian''"
  have "Meal_Diet m = ''Veg'' \<and> (\<exists>item\<in>set df_food. Diet item = ''Veg'' \<and> Dish m = Dish_Name item)"
    if e: "(day, dp) \<in> set plan" and m: "m \<in> set (Meals dp)" for day dp m
  proof -
    from generate_meal_plan_days [OF plan] e have
      "list_all2 (\<lambda>m sr. \<exists>item\<in>set (candidates_of ?df (of_int target_cals * snd sr)).
                   m = make_meal (fst sr) (of_int target_cals * snd sr) item) (Meals dp) budgets"
      by fastforce
    from list_all2_set1 [OF this m] obtain sr item where
      item: "item \<in> set (candidates_of ?df (of_int target_cals * snd sr))"
        "m = make_meal (fst sr) (of_int target_cals * snd sr) item"
      by blast
    from item(1) have "item \<in> set ?df"
      using candidates_of_subset by blast
    then have "item \<in> set df_food" "Diet item = ''Veg''"
      by (simp_all add: prepare_catalog_set)
    then show ?thesis
      by (auto simp: item(2) make_meal_fields)
  qed
  then show "\<forall>(day, dp)\<in>set plan. \<forall>m\<in>set (Meals dp).
         Meal_Diet m = ''Veg'' \<and>
         (\<exists>item\<in>set df_food. Diet item = ''Veg'' \<and> Dish m = Dish_Name item)"
    by blast
next
  show "mset (prepare_catalog df_food goal ''Non-Vegetarian'') = mset df_food"
    by (simp add: prepare_catalog_mset)
qed

text \<open>The theorem at a Muscle Gain plan over a table with one Non-Veg row.\<close>

theorem generate_meal_plan_diet_witness:
  "(\<exists>plan. generate_meal_plan demo_catalog 2000 ''Muscle Gain'' ''Vegetarian'' 1 Suc = Inr plan \<and>
      plan \<noteq> [] \<and>
      (\<forall>(day, dp)\<in>set plan. \<forall>m\<in>set (Meals dp).
         Meal_Diet m = ''Veg'' \<and>
         (\<exists>item\<in>set demo_catalog. Diet item = ''Veg'' \<and> Dish m = Dish_Name item))) \<and>
   mset (prepare_catalog demo_catalog ''Muscle Gain'' ''Non-Vegetarian'') = mset demo_catalog"
proof -
  have h: "generate_meal_plan demo_catalog 2000 ''Muscle Gain'' ''Vegetarian'' 1 Suc =
    Inr [(1, \<lparr>Meals =
             [\<lparr>Type = ''Breakfast'', Dish = ''Paneer Butter Masala'', Qty = 7 / 5,
               Unit = ''1 bowl'', Cals = 490, Meal_Diet = ''Veg''\<rparr>,
              \<lparr>Type = ''Lunch'', Dish = ''Paneer Butter Masala'', Qty = 2,
               Unit = ''1 bowl'', Cals = 700, Meal_Diet = ''Veg''\<rparr>,
              \<lparr>Type = ''Dinner'', Dish = ''Roti'', Qty = 3,
               Unit = ''1 piece'', Cals = 360, Meal_Diet = ''Veg''\<rparr>,
              \<lparr>Type = ''Snack'', Dish = ''Paneer Butter Masala'', Qty = 3 / 5,
               Unit = ''1 bowl'', Cals = 210, Meal_Diet = ''Veg''\<rparr>],
             Total = 1760\<rparr>)]"
    by code_simp
  from generate_meal_plan_diet [of demo_catalog 2000 "''Muscle Gain''" 1 Suc] h show ?thesis
    by blast
qed

section \<open>Properties of the symptom matcher\<close>

lemma extractOne_loop_append:
  "extractOne_loop scorer q cutoff (xs @ ys) best =
     extractOne_loop scorer q cutoff ys (extractOne_loop scorer q cutoff xs best)"
  by (induction scorer q cutoff xs best rule: extractOne_loop.induct) (simp_all add: Let_def)

lemma extractOne_loop_none:
  "extractOne_loop scorer q cutoff cs best = None \<Longrightarrow>
   best = None \<and> (\<forall>j c. (j, Some c) \<in> set cs \<longrightarrow> scorer q c < cutoff)"
  by (induction scorer q cutoff cs best rule: extractOne_loop.induct)
     (auto simp: Let_def split: if_splits option.splits)

lemma extractOne_loop_some:
  "extractOne_loop scorer q cutoff cs best = Some (c, s, i) \<Longrightarrow>
   \<forall>c0 s0 i0. best = Some (c0, s0, i0) \<longrightarrow> cutoff \<le> s0 \<Longrightarrow>
   cutoff \<le> s \<and>
   (best = Some (c, s, i) \<or> ((i, Some c) \<in> set cs \<and> s = scorer q c)) \<and>
   (\<forall>j c'. (j, Some c') \<in> set cs \<longrightarrow> scorer q c' \<le> s) \<and>
   (\<forall>c0 s0 i0. best = Some (c0, s0, i0) \<longrightarrow> s0 \<le> s)"
proof (induction scorer q cutoff cs best rule: extractOne_loop.induct)
  case (1 scorer query score_cutoff best)
  then show ?case by auto
next
  case (2 scorer query score_cutoff idx rest best)
  then show ?case by auto
next
  case (3 scorer query score_cutoff idx choice rest best)
  show ?case
  proof (cases "score_cutoff \<le> scorer query choice \<and>
            (case best of None \<Rightarrow> True | Some (_, best_score, _) \<Rightarrow> best_score < scorer query choice)")
    case True
    with 3(3) have run: "extractOne_loop scorer query score_cutoff rest
                           (Some (choice, scorer query choice, idx)) = Some (c, s, i)"
      by (simp add: Let_def)
    from True have pre: "\<forall>c0 s0 i0. Some (choice, scorer query choice, idx) = Some (c0, s0, i0)
                       \<longrightarrow> score_cutoff \<le> s0"
      by simp
    from 3(1) [OF refl True run pre] have ih:
      "score_cutoff \<le> s"
      "(c, s, i) = (choice, scorer query choice, idx) \<or> ((i, Some c) \<in> set rest \<and> s = scorer query c)"
      "\<forall>j c'. (j, Some c') \<in> set rest \<longrightarrow> scorer query c' \<le> s"
      "scorer query choice \<le> s"
      by auto
    have "\<forall>c0 s0 i0. best = Some (c0, s0, i0) \<longrightarrow> s0 \<le> s"
      using True ih(4) by (auto split: option.splits)
    with ih show ?thesis
      by auto
  next
    case False
    with 3(3) have run: "extractOne_loop scorer query score_cutoff rest best = Some (c, s, i)"
      by (simp add: Let_def)
    from 3(2) [OF refl False run 3(4)] have ih:
      "score_cutoff \<le> s"
      "best = Some (c, s, i) \<or> ((i, Some c) \<in> set rest \<and> s = scorer query c)"
      "\<forall>j c'. (j, Some c') \<in> set rest \<longrightarrow> scorer query c' \<le> s"
      "\<forall>c0 s0 i0. best = Some (c0, s0, i0) \<longrightarrow> s0 \<le> s"
      by blast+
    have "scorer query choice \<le> s"
    proof (cases "score_cutoff \<le> scorer query choice")
      case True
      with False obtain c0 s0 i0 where "best = Some (c0, s0, i0)" "\<not> s0 < scorer query choice"
        by (auto split: option.splits)
      with ih(4) show ?thesis by force
    next
      case False
      with ih(1) show ?thesis by simp
    qed
    with ih show ?thesis
      by auto
  qed
qed

lemma in_set_enumerate_nth:
  "(j, x) \<in> set (enumerate 0 xs) \<longleftrightarrow> j < length xs \<and> xs ! j = x"
  by (auto simp: in_set_enumerate_eq)

lemma extractOne_loop_keep:
  "\<forall>j c'. (j, Some c') \<in> set cs \<longrightarrow> scorer q c' \<le> s \<Longrightarrow>
   extractOne_loop scorer q cutoff cs (Some (c, s, i)) = Some (c, s, i)"
proof (induction cs)
  case Nil
  then show ?case by simp
next
  case (Cons e cs)
  obtain j oc where e: "e = (j, oc)"
    by (cases e)
  from Cons.prems have rest: "\<forall>j c'. (j, Some c') \<in> set cs \<longrightarrow> scorer q c' \<le> s"
    by simp
  show ?case
  proof (cases oc)
    case None
    with Cons.IH [OF rest] show ?thesis
      by (simp add: e)
  next
    case (Some a)
    with Cons.prems have "scorer q a \<le> s"
      by (simp add: e)
    with Cons.IH [OF rest] show ?thesis
      by (simp add: e Some Let_def)
  qed
qed

lemma extractOne_loop_below:
  "\<forall>j c'. (j, Some c') \<in> set cs \<longrightarrow> scorer q c' < t \<Longrightarrow>
   \<forall>c0 s0 i0. best = Some (c0, s0, i0) \<longrightarrow> s0 < t \<Longrightarrow>
   \<forall>c0 s0 i0. extractOne_loop scorer q cutoff cs best = Some (c0, s0, i0) \<longrightarrow> s0 < t"
proof (induction cs arbitrary: best)
  case Nil
  then show ?case by simp
next
  case (Cons e cs)
  obtain j oc where e: "e = (j, oc)"
    by (cases e)
  from Cons.prems(1) have rest: "\<forall>j c'. (j, Some c') \<in> set cs \<longrightarrow> scorer q c' < t"
    by simp
  show ?case
  proof (cases oc)
    case None
    with Cons.IH [OF rest Cons.prems(2)] show ?thesis
      by (simp add: e)
  next
    case (Some a)
    with Cons.prems(1) have a: "scorer q a < t"
      by (simp add: e)
    then have "\<forall>c0 s0 i0. Some (a, scorer q a, j) = Some (c0, s0, i0) \<longrightarrow> s0 < t"
      by simp
    from Cons.IH [OF rest this] Cons.IH [OF rest Cons.prems(2)] show ?thesis
      by (simp add: e Some Let_def)
  qed
qed


lemma enumerate_snd_mem: "(j, x) \<in> set (enumerate n xs) \<Longrightarrow> x \<in> set xs"
  by (auto simp: enumerate_eq_zip dest: set_zip_rightD)

text \<open>
  Claim C6. The matcher returns no match exactly when no entry of the catalog scores at
  least 70 against the query; when it returns a row, that row holds an entry whose score
  is at least 70 and is the highest of the catalog.
\<close>

theorem Matcher_threshold:
  "(Matcher scorer symptoms inp = None \<longleftrightarrow>
      (\<forall>c. Some c \<in> set symptoms \<longrightarrow> scorer inp c < 70)) \<and>
   (\<forall>idx. Matcher scorer symptoms inp = Some idx \<longrightarrow>
      idx < length symptoms \<and>
      (\<exists>c. symptoms ! idx = Some c \<and> 70 \<le> scorer inp c \<and>
           (\<forall>c'. Some c' \<in> set symptoms \<longrightarrow> scorer inp c' \<le> scorer inp c)))"
proof -
  let ?r = "extractOne_loop scorer inp 70 (enumerate 0 symptoms) None"
  have mem: "Some c \<in> set symptoms \<longleftrightarrow> (\<exists>j. (j, Some c) \<in> set (enumerate 0 symptoms))" for c
    unfolding in_set_enumerate_nth by (auto simp: in_set_conv_nth)
  have some: "idx < length symptoms \<and>
      (\<exists>c. symptoms ! idx = Some c \<and> 70 \<le> scorer inp c \<and>
           (\<forall>c'. Some c' \<in> set symptoms \<longrightarrow> scorer inp c' \<le> scorer inp c))"
    if "?r = Some (c, s, idx)" for c s idx
  proof -
    from extractOne_loop_some [OF that] have
      "70 \<le> s" "(idx, Some c) \<in> set (enumerate 0 symptoms)" "s = scorer inp c"
      "\<forall>j c'. (j, Some c') \<in> set (enumerate 0 symptoms) \<longrightarrow> scorer inp c' \<le> s"
      by auto
    then show ?thesis
      by (auto simp: mem in_set_enumerate_nth)
  qed
  have none: "\<forall>c. Some c \<in> set symptoms \<longrightarrow> scorer inp c < 70" if "?r = None"
    using extractOne_loop_none [OF that] by (auto simp: mem)
  have "?r = None" if low: "\<forall>c. Some c \<in> set symptoms \<longrightarrow> scorer inp c < 70"
  proof (cases ?r)
    case None
    then show ?thesis .
  next
    case (Some t)
    obtain c s idx where "t = (c, s, idx)"
      by (cases t)
    with Some some [of c s idx] low show ?thesis
      by (force simp: in_set_conv_nth)
  qed
  with none have iff: "?r = None \<longleftrightarrow> (\<forall>c. Some c \<in> set symptoms \<longrightarrow> scorer inp c < 70)"
    by (intro iffI)
  have "Matcher scorer symptoms inp = None \<longleftrightarrow> ?r = None"
    by (simp add: Matcher_def extractOne_def split: option.splits)
  with iff have first: "Matcher scorer symptoms inp = None \<longleftrightarrow>
      (\<forall>c. Some c \<in> set symptoms \<longrightarrow> scorer inp c < 70)"
    by simp
  from some have "\<forall>idx. Matcher scorer symptoms inp = Some idx \<longrightarrow>
      idx < length symptoms \<and>
      (\<exists>c. symptoms ! idx = Some c \<and> 70 \<le> scorer inp c \<and>
           (\<forall>c'. Some c' \<in> set symptoms \<longrightarrow> scorer inp c' \<le> scorer inp c))"
    by (auto simp: Matcher_def extractOne_def split: option.splits)
  with first show ?thesis
    by blast
qed

text \<open>
  Claim C7. Let the trimmed, title-cased query be the name in row \<open>i\<close> of the catalog.
  For a scorer that gives 100 to this name against itself and at most 100 to every entry,
  and less than 100 to the entries of the rows before \<open>i\<close>, the search returns row
  \<open>i\<close> with score 100, the matcher returns \<open>i\<close>, and the dialogue shows the advice of
  row \<open>i\<close> unless the query reads \<open>Exit\<close>.
\<close>

theorem Matcher_exact:
  "i < length symptoms \<Longrightarrow>
   symptoms ! i = Some (py_title (py_strip inp)) \<Longrightarrow>
   scorer (py_title (py_strip inp)) (py_title (py_strip inp)) = 100 \<Longrightarrow>
   \<forall>c. Some c \<in> set symptoms \<longrightarrow> scorer (py_title (py_strip inp)) c \<le> 100 \<Longrightarrow>
   \<forall>j<i. \<forall>c. symptoms ! j = Some c \<longrightarrow> scorer (py_title (py_strip inp)) c < 100 \<Longrightarrow>
   extractOne scorer (py_title (py_strip inp)) symptoms 70 = Some (py_title (py_strip inp), 100, i) \<and>
   Matcher scorer symptoms (py_title (py_strip inp)) = Some i \<and>
   (py_title (py_strip inp) \<noteq> ''Exit'' \<longrightarrow> chatbot_turn scorer symptoms inp = Advice i)"
proof -
  let ?q = "py_title (py_strip inp)"
  assume i: "i < length symptoms" and at: "symptoms ! i = Some ?q"
    and self: "scorer ?q ?q = 100"
    and top: "\<forall>c. Some c \<in> set symptoms \<longrightarrow> scorer ?q c \<le> 100"
    and before: "\<forall>j<i. \<forall>c. symptoms ! j = Some c \<longrightarrow> scorer ?q c < 100"
  let ?pre = "enumerate 0 (take i symptoms)"
  let ?post = "enumerate (Suc i) (drop (Suc i) symptoms)"
  have split: "enumerate 0 symptoms = ?pre @ (i, Some ?q) # ?post"
  proof -
    have "symptoms = take i symptoms @ Some ?q # drop (Suc i) symptoms"
      using id_take_nth_drop [OF i] at by simp
    then have "enumerate 0 symptoms = enumerate 0 (take i symptoms @ Some ?q # drop (Suc i) symptoms)"
      by simp
    also have "\<dots> = ?pre @ (i, Some ?q) # ?post"
      using i by (simp add: enumerate_append_eq min_def)
    finally show ?thesis .
  qed
  have pre: "\<forall>j c'. (j, Some c') \<in> set ?pre \<longrightarrow> scorer ?q c' < 100"
    using before by (auto simp: in_set_enumerate_eq)
  have post: "\<forall>j c'. (j, Some c') \<in> set ?post \<longrightarrow> scorer ?q c' \<le> 100"
  proof (intro allI impI)
    fix j c'
    assume "(j, Some c') \<in> set ?post"
    then have "Some c' \<in> set (drop (Suc i) symptoms)"
      by (rule enumerate_snd_mem)
    then have "Some c' \<in> set symptoms"
      by (rule in_set_dropD)
    with top show "scorer ?q c' \<le> 100"
      by blast
  qed
  define best where "best = extractOne_loop scorer ?q 70 ?pre None"
  have low: "\<forall>c0 s0 i0. best = Some (c0, s0, i0) \<longrightarrow> s0 < 100"
    unfolding best_def
    using extractOne_loop_below [of "enumerate 0 (take i symptoms)" scorer "py_title (py_strip inp)" 100 None 70] pre
    by simp
  have step: "extractOne_loop scorer ?q 70 ((i, Some ?q) # ?post) best =
                extractOne_loop scorer ?q 70 ?post (Some (?q, 100, i))"
    using low self by (cases best) (auto simp: Let_def)
  have "extractOne scorer ?q symptoms 70 = extractOne_loop scorer ?q 70 ((i, Some ?q) # ?post) best"
    by (simp add: extractOne_def split extractOne_loop_append best_def)
  also have "\<dots> = Some (?q, 100, i)"
    unfolding step using post by (rule extractOne_loop_keep)
  finally have one: "extractOne scorer ?q symptoms 70 = Some (?q, 100, i)" .
  then have two: "Matcher scorer symptoms ?q = Some i"
    by (simp add: Matcher_def)
  then have "?q \<noteq> ''Exit'' \<longrightarrow> chatbot_turn scorer symptoms inp = Advice i"
    by (simp add: chatbot_turn_def Let_def)
  with one two show ?thesis
    by blast
qed


lemma common_prefix_le: "common_prefix q c \<le> length q \<and> common_prefix q c \<le> length c"
  by (induction q c rule: common_prefix.induct) auto

lemma prefix_scorer_le: "prefix_scorer q c \<le> 100"
proof (cases "q = [] \<or> c = []")
  case True
  then show ?thesis
    by (auto simp: prefix_scorer_def)
next
  case False
  then have "0 < max (length q) (length c)"
    by (cases q) simp_all
  then have pos: "(0 :: rat) < of_nat (max (length q) (length c))"
    using of_nat_0_less_iff by blast
  have "common_prefix q c \<le> max (length q) (length c)"
    using common_prefix_le [of q c] by (simp add: le_max_iff_disj)
  then have "(of_nat (common_prefix q c) :: rat) \<le> of_nat (max (length q) (length c))"
    using of_nat_le_iff by blast
  then have "100 * (of_nat (common_prefix q c) :: rat) \<le> 100 * of_nat (max (length q) (length c))"
    by simp
  with pos have "100 * (of_nat (common_prefix q c) :: rat) / of_nat (max (length q) (length c)) \<le> 100"
    by (simp add: pos_divide_le_eq)
  with False show ?thesis
    by (simp add: prefix_scorer_def)
qed

text \<open>The theorem at the query \<open>Fever\<close> over the sample catalog.\<close>

theorem Matcher_threshold_witness:
  "(Matcher prefix_scorer demo_symptoms ''Fever'' = None \<longleftrightarrow>
      (\<forall>c. Some c \<in> set demo_symptoms \<longrightarrow> prefix_scorer ''Fever'' c < 70)) \<and>
   Matcher prefix_scorer demo_symptoms ''Fever'' = Some 2 \<and>
   (\<exists>c. demo_symptoms ! 2 = Some c \<and> 70 \<le> prefix_scorer ''Fever'' c \<and>
        (\<forall>c'. Some c' \<in> set demo_symptoms \<longrightarrow> prefix_scorer ''Fever'' c' \<le> prefix_scorer ''Fever'' c))"
proof -
  have h: "Matcher prefix_scorer demo_symptoms ''Fever'' = Some 2"
    by code_simp
  from Matcher_threshold [of prefix_scorer demo_symptoms "''Fever''"] h show ?thesis
    by blast
qed

text \<open>The theorem at the typed line \<open>sore THROAT\<close> with blanks around it.\<close>

theorem Matcher_exact_witness:
  "3 < length demo_symptoms \<and>
   demo_symptoms ! 3 = Some (py_title (py_strip ''  sore THROAT '')) \<and>
   prefix_scorer (py_title (py_strip ''  sore THROAT '')) (py_title (py_strip ''  sore THROAT '')) = 100 \<and>
   extractOne prefix_scorer (py_title (py_strip ''  sore THROAT '')) demo_symptoms 70 =
     Some (''Sore Throat'', 100, 3) \<and>
   Matcher prefix_scorer demo_symptoms (py_title (py_strip ''  sore THROAT '')) = Some 3 \<and>
   chatbot_turn prefix_scorer demo_symptoms ''  sore THROAT '' = Advice 3"
proof -
  have q: "py_title (py_strip ''  sore THROAT '') = ''Sore Throat''"
    by code_simp
  have ds: "demo_symptoms = [Some ''Headache'', None, Some ''Fever'', Some ''Sore Throat'']"
    by code_simp
  have h1: "3 < length demo_symptoms"
    by (simp add: ds)
  have h2: "demo_symptoms ! 3 = Some (py_title (py_strip ''  sore THROAT ''))"
    by (simp add: ds q)
  have h3: "prefix_scorer (py_title (py_strip ''  sore THROAT '')) (py_title (py_strip ''  sore THROAT '')) = 100"
    unfolding q by code_simp
  have h4: "\<forall>c. Some c \<in> set demo_symptoms \<longrightarrow> prefix_scorer (py_title (py_strip ''  sore THROAT '')) c \<le> 100"
    by (simp add: prefix_scorer_le)
  have s0: "prefix_scorer ''Sore Throat'' ''Headache'' < 100"
    by code_simp
  have s2: "prefix_scorer ''Sore Throat'' ''Fever'' < 100"
    by code_simp
  have h5: "\<forall>j<3. \<forall>c. demo_symptoms ! j = Some c \<longrightarrow> prefix_scorer (py_title (py_strip ''  sore THROAT '')) c < 100"
    using s0 s2 by (auto simp: ds q less_Suc_eq numeral_3_eq_3)
  have ne: "py_title (py_strip ''  sore THROAT '') \<noteq> ''Exit''"
    by (simp add: q)
  from Matcher_exact [of 3 demo_symptoms "''  sore THROAT ''" prefix_scorer, OF h1 h2 h3 h4 h5]
    ne h1 h2 h3 show ?thesis
    by (simp add: q)
qed

section \<open>Properties of the streak\<close>

lemma streak_loop_run:
  "\<forall>k<n. check_date - int k \<in> set valid_dates \<Longrightarrow>
   check_date - int n \<notin> set valid_dates \<Longrightarrow>
   streak_loop valid_dates check_date streak = streak + n"
proof (induction n arbitrary: check_date streak)
  case 0
  then show ?case
    by (subst streak_loop.simps) simp
next
  case (Suc n)
  from Suc.prems(1) have here: "check_date \<in> set valid_dates"
    by force
  have "\<forall>k<n. check_date - 1 - int k \<in> set valid_dates"
  proof (intro allI impI)
    fix k assume "k < n"
    with Suc.prems(1) have "check_date - int (Suc k) \<in> set valid_dates"
      by (meson Suc_less_eq)
    then show "check_date - 1 - int k \<in> set valid_dates"
      by (simp add: algebra_simps)
  qed
  moreover from Suc.prems(2) have "check_date - 1 - int n \<notin> set valid_dates"
    by (simp add: algebra_simps)
  ultimately have "streak_loop valid_dates (check_date - 1) (streak + 1) = streak + 1 + n"
    by (rule Suc.IH)
  with here show ?case
    by (subst streak_loop.simps) simp
qed

lemma valid_dates_of_set: "set (valid_dates_of objs) = {d. Some d \<in> set objs}"
  by (auto simp: valid_dates_of_def split: option.splits)

lemma calculate_streak_None: "calculate_streak to_datetime today None = (0, None)"
  by (simp add: calculate_streak_def)

lemma calculate_streak_empty:
  "Date df = [] \<Longrightarrow> calculate_streak to_datetime today (Some df) = (0, Some df)"
  by (simp add: calculate_streak_def)

lemma calculate_streak_today:
  assumes "Date df \<noteq> []" and "Some today \<in> set (to_datetime (Date df))"
  shows "fst (calculate_streak to_datetime today (Some df)) =
           streak_loop (valid_dates_of (to_datetime (Date df))) today 0"
proof -
  have "today \<in> set (valid_dates_of (to_datetime (Date df)))"
    using assms(2) by (simp add: valid_dates_of_set)
  moreover from this have "valid_dates_of (to_datetime (Date df)) \<noteq> []"
    by auto
  ultimately show ?thesis
    using assms(1) by (simp add: calculate_streak_def Let_def)
qed

lemma calculate_streak_yesterday:
  assumes "Date df \<noteq> []" and "Some today \<notin> set (to_datetime (Date df))"
    and "Some (today - 1) \<in> set (to_datetime (Date df))"
  shows "fst (calculate_streak to_datetime today (Some df)) =
           streak_loop (valid_dates_of (to_datetime (Date df))) (today - 1) 0"
proof -
  have "today \<notin> set (valid_dates_of (to_datetime (Date df)))"
    using assms(2) by (simp add: valid_dates_of_set)
  moreover have "today - 1 \<in> set (valid_dates_of (to_datetime (Date df)))"
    using assms(3) by (simp add: valid_dates_of_set)
  moreover from this have "valid_dates_of (to_datetime (Date df)) \<noteq> []"
    by auto
  ultimately show ?thesis
    using assms(1) by (simp add: calculate_streak_def Let_def)
qed

lemma calculate_streak_neither:
  assumes "Some today \<notin> set (to_datetime (Date df))"
    and "Some (today - 1) \<notin> set (to_datetime (Date df))"
  shows "fst (calculate_streak to_datetime today (Some df)) = 0"
proof -
  have "today \<notin> set (valid_dates_of (to_datetime (Date df)))"
    "today - 1 \<notin> set (valid_dates_of (to_datetime (Date df)))"
    using assms by (simp_all add: valid_dates_of_set)
  then show ?thesis
    by (simp add: calculate_streak_def Let_def)
qed

text \<open>
  Claim C8. The streak is 0 for a missing log and for a log without rows; 1 when today is
  the only day with a parsed date; \<open>n\<close> when the \<open>n\<close> days ending today are all present
  and the day before them is not; \<open>n\<close> when today is absent and the \<open>n\<close> days ending
  yesterday are present and the day before them is not; and 0 when neither today nor
  yesterday is present.
\<close>

theorem calculate_streak_counts:
  "fst (calculate_streak to_datetime today None) = 0 \<and>
   (Date df = [] \<longrightarrow> fst (calculate_streak to_datetime today (Some df)) = 0) \<and>
   (Date df \<noteq> [] \<and> {d. Some d \<in> set (to_datetime (Date df))} = {today} \<longrightarrow>
      fst (calculate_streak to_datetime today (Some df)) = 1) \<and>
   (Date df \<noteq> [] \<and> 0 < n \<and>
    (\<forall>k<n. Some (today - int k) \<in> set (to_datetime (Date df))) \<and>
    Some (today - int n) \<notin> set (to_datetime (Date df)) \<longrightarrow>
      fst (calculate_streak to_datetime today (Some df)) = n) \<and>
   (Date df \<noteq> [] \<and> 0 < n \<and> Some today \<notin> set (to_datetime (Date df)) \<and>
    (\<forall>k<n. Some (today - 1 - int k) \<in> set (to_datetime (Date df))) \<and>
    Some (today - 1 - int n) \<notin> set (to_datetime (Date df)) \<longrightarrow>
      fst (calculate_streak to_datetime today (Some df)) = n) \<and>
   (Some today \<notin> set (to_datetime (Date df)) \<and>
    Some (today - 1) \<notin> set (to_datetime (Date df)) \<longrightarrow>
      fst (calculate_streak to_datetime today (Some df)) = 0)"
proof -
  let ?objs = "to_datetime (Date df)"
  let ?valid = "valid_dates_of ?objs"
  have run: "streak_loop ?valid start 0 = m"
    if "\<forall>k<m. Some (start - int k) \<in> set ?objs" "Some (start - int m) \<notin> set ?objs"
    for start m
    using streak_loop_run [of m start ?valid 0] that by (simp add: valid_dates_of_set)
  have from_today: "fst (calculate_streak to_datetime today (Some df)) = n"
    if "Date df \<noteq> []" "0 < n" "\<forall>k<n. Some (today - int k) \<in> set ?objs"
      "Some (today - int n) \<notin> set ?objs"
  proof -
    from that(2,3) have "Some today \<in> set ?objs"
      by force
    with that(1) have "fst (calculate_streak to_datetime today (Some df)) = streak_loop ?valid today 0"
      by (rule calculate_streak_today)
    with run [OF that(3,4)] show ?thesis
      by simp
  qed
  have from_yesterday: "fst (calculate_streak to_datetime today (Some df)) = n"
    if "Date df \<noteq> []" "0 < n" "Some today \<notin> set ?objs"
      "\<forall>k<n. Some (today - 1 - int k) \<in> set ?objs" "Some (today - 1 - int n) \<notin> set ?objs"
  proof -
    from that(2,4) have "Some (today - 1) \<in> set ?objs"
      by force
    with that(1,3) have
      "fst (calculate_streak to_datetime today (Some df)) = streak_loop ?valid (today - 1) 0"
      by (rule calculate_streak_yesterday)
    with run [OF that(4,5)] show ?thesis
      by simp
  qed
  have only_today: "fst (calculate_streak to_datetime today (Some df)) = 1"
    if "Date df \<noteq> []" "{d. Some d \<in> set ?objs} = {today}"
  proof -
    from that(2) have mem: "Some d \<in> set ?objs \<longleftrightarrow> d = today" for d
      by blast
    have "Some today \<in> set ?objs" "Some (today - 1) \<notin> set ?objs"
      by (simp_all add: mem)
    with that(1) have "fst (calculate_streak to_datetime today (Some df)) = streak_loop ?valid today 0"
      by (intro calculate_streak_today)
    moreover have "streak_loop ?valid today 0 = 1"
      using \<open>Some today \<in> set ?objs\<close> \<open>Some (today - 1) \<notin> set ?objs\<close>
      by (intro run) simp_all
    ultimately show ?thesis
      by simp
  qed
  show ?thesis
    using from_today from_yesterday only_today calculate_streak_neither [of today to_datetime df]
    by (simp add: calculate_streak_None calculate_streak_empty)
qed

text \<open>
  The theorem at a log with the days 1, 2 and 3 March 2024 and 28 February 2024, read on
  3, 4 and 5 March, and at a log with one day.
\<close>

theorem calculate_streak_counts_witness:
  "fst (calculate_streak demo_to_datetime 19785 None) = 0 \<and>
   fst (calculate_streak demo_to_datetime 19785 (Some \<lparr>Date = [], DateObj = None\<rparr>)) = 0 \<and>
   fst (calculate_streak demo_to_datetime 19781 (Some \<lparr>Date = [''2024-02-28'', ''n/a''], DateObj = None\<rparr>)) = 1 \<and>
   fst (calculate_streak demo_to_datetime 19785 (Some demo_log)) = 3 \<and>
   fst (calculate_streak demo_to_datetime 19786 (Some demo_log)) = 3 \<and>
   fst (calculate_streak demo_to_datetime 19787 (Some demo_log)) = 0"
proof -
  have objs: "demo_to_datetime (Date demo_log) =
                [Some 19783, Some 19785, None, Some 19784, Some 19785, Some 19781]"
    by code_simp
  have ne: "Date demo_log \<noteq> []"
    by code_simp
  have three: "\<forall>k<3. Some (19785 - int k) \<in> set (demo_to_datetime (Date demo_log))"
    by (auto simp: objs less_Suc_eq numeral_3_eq_3)
  have gap: "Some (19785 - int 3) \<notin> set (demo_to_datetime (Date demo_log))"
    by (simp add: objs)
  have three': "\<forall>k<3. Some (19786 - 1 - int k) \<in> set (demo_to_datetime (Date demo_log))"
    by (auto simp: objs less_Suc_eq numeral_3_eq_3)
  have gap': "Some (19786 - 1 - int 3) \<notin> set (demo_to_datetime (Date demo_log))"
    by (simp add: objs)
  have absent: "Some 19786 \<notin> set (demo_to_datetime (Date demo_log))"
    "Some 19787 \<notin> set (demo_to_datetime (Date demo_log))"
    "Some (19787 - 1) \<notin> set (demo_to_datetime (Date demo_log))"
    by (simp_all add: objs)
  have single: "{d. Some d \<in> set (demo_to_datetime (Date \<lparr>Date = [''2024-02-28'', ''n/a''], DateObj = None\<rparr>))} = {19781}"
    by (auto simp: demo_to_datetime_def)
  have a: "fst (calculate_streak demo_to_datetime 19785 None) = 0"
    using calculate_streak_counts [of demo_to_datetime 19785 demo_log 3] by blast
  have b: "fst (calculate_streak demo_to_datetime 19785 (Some \<lparr>Date = [], DateObj = None\<rparr>)) = 0"
    using calculate_streak_counts [of demo_to_datetime 19785 "\<lparr>Date = [], DateObj = None\<rparr>" 3] by simp
  have c: "fst (calculate_streak demo_to_datetime 19781 (Some \<lparr>Date = [''2024-02-28'', ''n/a''], DateObj = None\<rparr>)) = 1"
    using calculate_streak_counts [of demo_to_datetime 19781 "\<lparr>Date = [''2024-02-28'', ''n/a''], DateObj = None\<rparr>" 1] single
    by simp
  have d: "fst (calculate_streak demo_to_datetime 19785 (Some demo_log)) = 3"
    using calculate_streak_counts [of demo_to_datetime 19785 demo_log 3] ne three gap by simp
  have e: "fst (calculate_streak demo_to_datetime 19786 (Some demo_log)) = 3"
    using calculate_streak_counts [of demo_to_datetime 19786 demo_log 3] ne three' gap' absent(1) by simp
  have f: "fst (calculate_streak demo_to_datetime 19787 (Some demo_log)) = 0"
    using calculate_streak_counts [of demo_to_datetime 19787 demo_log 3] absent(2,3) by simp
  from a b c d e f show ?thesis
    by blast
qed

text \<open>
  Claim C10. After a call on a table with at least one row, the caller's table is the table
  passed in with the column \<open>DateObj\<close> set to the parsed dates.
\<close>

theorem calculate_streak_adds_column:
  "Date df \<noteq> [] \<Longrightarrow>
   snd (calculate_streak to_datetime today (Some df)) =
     Some (df\<lparr>DateObj := Some (to_datetime (Date df))\<rparr>)"
  by (simp add: calculate_streak_def Let_def)

text \<open>The theorem at the sample log, which has no \<open>DateObj\<close> column before the call.\<close>

theorem calculate_streak_adds_column_witness:
  "Date demo_log \<noteq> [] \<and> DateObj demo_log = None \<and>
   snd (calculate_streak demo_to_datetime 19785 (Some demo_log)) =
     Some \<lparr>Date = [''2024-03-01'', ''2024-03-03'', ''n/a'', ''2024-03-02'', ''2024-03-03'',
                     ''2024-02-28''],
            DateObj = Some [Some 19783, Some 19785, None, Some 19784, Some 19785, Some 19781]\<rparr>"
proof -
  have ne: "Date demo_log \<noteq> []"
    by code_simp
  have before: "DateObj demo_log = None"
    by code_simp
  have "demo_log\<lparr>DateObj := Some (demo_to_datetime (Date demo_log))\<rparr> =
          \<lparr>Date = [''2024-03-01'', ''2024-03-03'', ''n/a'', ''2024-03-02'', ''2024-03-03'',
                     ''2024-02-28''],
            DateObj = Some [Some 19783, Some 19785, None, Some 19784, Some 19785, Some 19781]\<rparr>"
    by code_simp
  with calculate_streak_adds_column [OF ne, of demo_to_datetime 19785] ne before show ?thesis
    by simp
qed

section \<open>Properties of the loader\<close>

text \<open>
  Claim C9. The loader returns \<open>None\<close>, and raises nothing, for a path without a file,
  for a file of length zero and for a file that parses to a table without rows; for a file
  that parses to a table with rows it returns those rows.
\<close>

theorem load_data_safe_cases:
  "(files filepath = None \<longrightarrow> load_data_safe parse files filepath = Inr None) \<and>
   (files filepath = Some [] \<longrightarrow> load_data_safe parse files filepath = Inr None) \<and>
   (files filepath = Some text \<and> text \<noteq> [] \<and> parse text = DataFrame [] \<longrightarrow>
      load_data_safe parse files filepath = Inr None) \<and>
   (files filepath = Some text \<and> text \<noteq> [] \<and> parse text = DataFrame rows \<and> rows \<noteq> [] \<longrightarrow>
      load_data_safe parse files filepath = Inr (Some rows))"
  by (simp add: load_data_safe_def read_csv_def)

text \<open>The theorem at a missing file, an empty file, a header line alone, and a log of one row.\<close>

theorem load_data_safe_cases_witness:
  "load_data_safe csv_rows demo_files ''exercise_log.csv'' = Inr None \<and>
   load_data_safe csv_rows demo_files ''water_log_detailed.csv'' = Inr None \<and>
   load_data_safe csv_rows demo_files ''food_log.csv'' = Inr None \<and>
   load_data_safe csv_rows demo_files ''weight_log.csv'' = Inr (Some [''2024-03-01,70''])"
proof -
  have missing: "demo_files ''exercise_log.csv'' = None"
    by code_simp
  have zero: "demo_files ''water_log_detailed.csv'' = Some []"
    by code_simp
  have header: "demo_files ''food_log.csv'' = Some (''Date,Time,Dish'' @ [CHR 0x0A])"
    "''Date,Time,Dish'' @ [CHR 0x0A] \<noteq> []"
    "csv_rows (''Date,Time,Dish'' @ [CHR 0x0A]) = DataFrame []"
    by code_simp+
  have full: "demo_files ''weight_log.csv'' = Some (''Date,Weight'' @ [CHR 0x0A] @ ''2024-03-01,70'' @ [CHR 0x0A])"
    "''Date,Weight'' @ [CHR 0x0A] @ ''2024-03-01,70'' @ [CHR 0x0A] \<noteq> []"
    "csv_rows (''Date,Weight'' @ [CHR 0x0A] @ ''2024-03-01,70'' @ [CHR 0x0A]) = DataFrame [''2024-03-01,70'']"
    "[''2024-03-01,70''] \<noteq> []"
    by code_simp+
  have a: "load_data_safe csv_rows demo_files ''exercise_log.csv'' = Inr None"
    using load_data_safe_cases [of demo_files "''exercise_log.csv''" csv_rows] missing by blast
  have b: "load_data_safe csv_rows demo_files ''water_log_detailed.csv'' = Inr None"
    using load_data_safe_cases [of demo_files "''water_log_detailed.csv''" csv_rows] zero by blast
  have c: "load_data_safe csv_rows demo_files ''food_log.csv'' = Inr None"
    using load_data_safe_cases [of demo_files "''food_log.csv''" csv_rows "''Date,Time,Dish'' @ [CHR 0x0A]"] header
    by blast
  have d: "load_data_safe csv_rows demo_files ''weight_log.csv'' = Inr (Some [''2024-03-01,70''])"
    using load_data_safe_cases [of demo_files "''weight_log.csv''" csv_rows
            "''Date,Weight'' @ [CHR 0x0A] @ ''2024-03-01,70'' @ [CHR 0x0A]" "[''2024-03-01,70'']"] full
    by blast
  from a b c d show ?thesis
    by blast
qed

end
